theory Spec2Isabelle
  imports Main "HOL-Library.Word"
begin

section \<open>Text\<close>

text \<open>
  A JavaScript string is a sequence of UTF-16 code units: \<open>length\<close>, \<open>slice\<close>,
  \<open>startsWith\<close> and \<open>trim\<close> all count and compare code units. The model keeps that
  type. ASCII literals of the source are written \<open>ascii ''...''\<close>.
\<close>

type_synonym jsstring = "16 word list"

definition ascii :: "string \<Rightarrow> jsstring" where
  "ascii s = map (\<lambda>c. of_nat (of_char c)) s"

section \<open>The chat store (store/chat.ts)\<close>

datatype Role = User | Assistant

text \<open>A field declared \<open>f?: T | null\<close> is absent, \<open>null\<close> or a value.\<close>

datatype 'a nullable = Null | Val 'a

text \<open>
  \<open>ChatMsg\<close>. The field \<open>id\<close> is named \<open>msg_id\<close> here (\<open>id\<close> is the identity
  function of HOL). Optional fields are options; \<open>None\<close> is JavaScript's \<open>undefined\<close>.
\<close>

record ChatMsg =
  msg_id :: "int option"
  role :: Role
  content :: jsstring
  rating :: "int nullable option"
  created_at :: "jsstring option"
  isStreaming :: "bool option"

record ChatState =
  messages :: "ChatMsg list"
  isLoading :: bool
  hasMore :: bool

definition setMessages :: "ChatMsg list \<Rightarrow> ChatState \<Rightarrow> ChatState" where
  "setMessages msgs s = s\<lparr>messages := msgs\<rparr>"

definition addMessage :: "ChatMsg \<Rightarrow> ChatState \<Rightarrow> ChatState" where
  "addMessage msg s = s\<lparr>messages := messages s @ [msg]\<rparr>"

text \<open>
  \<open>msgs[msgs.length - 1]\<close> of an empty array is \<open>undefined\<close>, which fails the test
  \<open>last && ...\<close>; the model tests for the empty list first.
\<close>

definition appendToLast :: "jsstring \<Rightarrow> ChatState \<Rightarrow> ChatState" where
  "appendToLast c s =
     (let msgs = messages s in
      if msgs \<noteq> [] \<and> role (last msgs) = Assistant
      then s\<lparr>messages := msgs[length msgs - 1 := (last msgs)\<lparr>content := content (last msgs) @ c\<rparr>]\<rparr>
      else s\<lparr>messages := msgs\<rparr>)"

text \<open>\<open>last.isStreaming\<close> is truthy only when the field is present and \<open>true\<close>.\<close>

definition finishStreaming :: "int \<Rightarrow> ChatState \<Rightarrow> ChatState" where
  "finishStreaming messageId s =
     (let msgs = messages s in
      if msgs \<noteq> [] \<and> role (last msgs) = Assistant \<and> isStreaming (last msgs) = Some True
      then s\<lparr>messages := msgs[length msgs - 1 :=
                (last msgs)\<lparr>msg_id := Some messageId, isStreaming := Some False\<rparr>]\<rparr>
      else s\<lparr>messages := msgs\<rparr>)"

text \<open>\<open>m.id === messageId\<close> is false for a message without an id.\<close>

definition updateRating :: "int \<Rightarrow> int \<Rightarrow> ChatState \<Rightarrow> ChatState" where
  "updateRating messageId r s =
     s\<lparr>messages := map (\<lambda>m. if msg_id m = Some messageId then m\<lparr>rating := Some (Val r)\<rparr> else m)
                        (messages s)\<rparr>"

definition setLoading :: "bool \<Rightarrow> ChatState \<Rightarrow> ChatState" where
  "setLoading v s = s\<lparr>isLoading := v\<rparr>"

definition setHasMore :: "bool \<Rightarrow> ChatState \<Rightarrow> ChatState" where
  "setHasMore v s = s\<lparr>hasMore := v\<rparr>"

definition prependMessages :: "ChatMsg list \<Rightarrow> ChatState \<Rightarrow> ChatState" where
  "prependMessages msgs s = s\<lparr>messages := msgs @ messages s\<rparr>"

definition serverIds :: "ChatMsg list \<Rightarrow> int list" where
  \<comment> \<open>the ids present in a list, in order; messages without an id contribute none\<close>
  "serverIds msgs = concat (map (\<lambda>m. case msg_id m of None \<Rightarrow> [] | Some n \<Rightarrow> [n]) msgs)"

section \<open>Stream events and effects\<close>

text \<open>
  The element type of the chat and audit streams (api/endpoints.ts):
  \<open>{ type: string; content?: string; message_id?: number }\<close>. The fields \<open>type\<close> and
  \<open>content\<close> are named \<open>ev_type\<close> and \<open>ev_content\<close> here (\<open>content\<close> is a field of
  \<open>ChatMsg\<close>).
\<close>

record StreamEvent =
  ev_type :: jsstring
  ev_content :: "jsstring option"
  message_id :: "int option"

text \<open>
  A stream as its consumer sees it: the events it yields, and then either the end of the
  iteration or an exception (a response that is not ok, a failed read).
\<close>

datatype stream_end = Closed | Threw

text \<open>
  Truthiness of an optional string (\<open>undefined\<close> and \<open>""\<close> are falsy) and of an
  optional number (\<open>undefined\<close> and \<open>0\<close> are falsy), the value read in the branch
  guarded by the test, and \<open>x || d\<close>.
\<close>

fun truthy_str :: "jsstring option \<Rightarrow> bool" where
  "truthy_str None = False"
| "truthy_str (Some c) = (c \<noteq> [])"

fun truthy_num :: "int option \<Rightarrow> bool" where
  "truthy_num None = False"
| "truthy_num (Some n) = (n \<noteq> 0)"

fun str_val :: "jsstring option \<Rightarrow> jsstring" where
  "str_val None = []"
| "str_val (Some c) = c"

fun num_val :: "int option \<Rightarrow> int" where
  "num_val None = 0"
| "num_val (Some n) = n"

definition or_else :: "jsstring option \<Rightarrow> jsstring \<Rightarrow> jsstring" where
  "or_else x d = (if truthy_str x then str_val x else d)"

text \<open>The texts shown on failure, as code units.\<close>

definition err_short :: jsstring where
  \<comment> \<open>the six Cyrillic letters of the chat's error text\<close>
  "err_short = [0x041E, 0x0448, 0x0438, 0x0431, 0x043A, 0x0430]"

definition err_retry :: jsstring where
  \<comment> \<open>the text of both catch blocks\<close>
  "err_retry =
     [0x041F, 0x0440, 0x043E, 0x0438, 0x0437, 0x043E, 0x0448, 0x043B, 0x0430, 0x0020,
      0x043E, 0x0448, 0x0438, 0x0431, 0x043A, 0x0430, 0x002E, 0x0020,
      0x041F, 0x043E, 0x043F, 0x0440, 0x043E, 0x0431, 0x0443, 0x0439, 0x0020,
      0x0435, 0x0449, 0x0451, 0x0020, 0x0440, 0x0430, 0x0437, 0x002E]"

definition err_audit :: jsstring where
  \<comment> \<open>the audit page's error text\<close>
  "err_audit =
     [0x041E, 0x0448, 0x0438, 0x0431, 0x043A, 0x0430, 0x0020, 0x043F, 0x0440, 0x0438,
      0x0020, 0x0430, 0x043D, 0x0430, 0x043B, 0x0438, 0x0437, 0x0435]"

text \<open>
  \<open>String.prototype.trim\<close> removes the white space and line terminator code units of
  ECMAScript from both ends.
\<close>

definition is_ws :: "16 word \<Rightarrow> bool" where
  "is_ws c = (c \<in> set [0x0009, 0x000A, 0x000B, 0x000C, 0x000D, 0x0020, 0x00A0, 0x1680,
                        0x2000, 0x2001, 0x2002, 0x2003, 0x2004, 0x2005, 0x2006, 0x2007,
                        0x2008, 0x2009, 0x200A, 0x2028, 0x2029, 0x202F, 0x205F, 0x3000,
                        0xFEFF])"

definition trim :: "jsstring \<Rightarrow> jsstring" where
  "trim s = rev (dropWhile is_ws (rev (dropWhile is_ws s)))"

text \<open>
  What a handler does besides changing its state is appended to a log: haptic feedback
  and the requests it issues.
\<close>

datatype haptic_type = light | medium | heavy | success | error | warning

datatype effect =
    Haptic haptic_type
  | SendChatMessage jsstring
  | SendChatFeedback int int
  | SendAudit jsstring

section \<open>The chat page (pages/Chat.tsx)\<close>

text \<open>The store, the two pieces of component state the handlers use, and the log.\<close>

record Chat =
  store :: ChatState
  input :: jsstring
  isSending :: bool
  effects :: "effect list"

definition user_msg :: "jsstring \<Rightarrow> ChatMsg" where
  \<comment> \<open>\<open>{ role: "user", content: text }\<close>\<close>
  "user_msg t =
     \<lparr>msg_id = None, role = User, content = t, rating = None, created_at = None,
      isStreaming = None\<rparr>"

definition placeholder :: ChatMsg where
  \<comment> \<open>\<open>{ role: "assistant", content: "", isStreaming: true }\<close>\<close>
  "placeholder =
     \<lparr>msg_id = None, role = Assistant, content = [], rating = None, created_at = None,
      isStreaming = Some True\<rparr>"

definition handleSend_rejects :: "Chat \<Rightarrow> bool" where
  \<comment> \<open>\<open>if (!text || isSending) return\<close>, with \<open>text = input.trim()\<close>\<close>
  "handleSend_rejects st = (trim (input st) = [] \<or> isSending st)"

text \<open>
  The part of \<open>handleSend\<close> that runs before its first suspension: the two
  \<open>addMessage\<close> calls and the request, which the first \<open>next()\<close> of the generator issues.
\<close>

definition handleSend_start :: "Chat \<Rightarrow> Chat" where
  "handleSend_start st =
     (let t = trim (input st) in
      st\<lparr>store := addMessage placeholder (addMessage (user_msg t) (store st)),
         input := [],
         isSending := True,
         effects := effects st @ [Haptic light, SendChatMessage t]\<rparr>)"

text \<open>The body of the \<open>for await\<close> loop.\<close>

definition chat_event :: "StreamEvent \<Rightarrow> Chat \<Rightarrow> Chat" where
  "chat_event event st =
     (if ev_type event = ascii ''token'' \<and> truthy_str (ev_content event)
      then st\<lparr>store := appendToLast (str_val (ev_content event)) (store st)\<rparr>
      else if ev_type event = ascii ''done'' \<and> truthy_num (message_id event)
      then st\<lparr>store := finishStreaming (num_val (message_id event)) (store st),
              effects := effects st @ [Haptic success]\<rparr>
      else if ev_type event = ascii ''error''
      then st\<lparr>store := finishStreaming 0
                (appendToLast (or_else (ev_content event) err_short) (store st))\<rparr>
      else st)"

definition chat_events :: "StreamEvent list \<Rightarrow> Chat \<Rightarrow> Chat" where
  "chat_events evs st = foldl (\<lambda>s ev. chat_event ev s) st evs"

text \<open>The \<open>try\<close> block, its \<open>catch\<close>, and \<open>setIsSending(false)\<close>.\<close>

definition handleSend_stream :: "StreamEvent list \<times> stream_end \<Rightarrow> Chat \<Rightarrow> Chat" where
  "handleSend_stream run st =
     (let st1 = chat_events (fst run) st;
          st2 = (case snd run of
                   Closed \<Rightarrow> st1
                 | Threw \<Rightarrow> st1\<lparr>store := finishStreaming 0 (appendToLast err_retry (store st1))\<rparr>)
      in st2\<lparr>isSending := False\<rparr>)"

definition handleSend :: "StreamEvent list \<times> stream_end \<Rightarrow> Chat \<Rightarrow> Chat" where
  "handleSend run st =
     (if handleSend_rejects st then st else handleSend_stream run (handleSend_start st))"

definition submit :: "Chat \<Rightarrow> Chat" where
  \<comment> \<open>the state when the call of \<open>handleSend\<close> returns to its caller\<close>
  "submit st = (if handleSend_rejects st then st else handleSend_start st)"

text \<open>\<open>sendChatFeedback(...).catch(console.error)\<close>: a failure is logged, nothing is undone.\<close>

definition handleRate :: "int \<Rightarrow> int \<Rightarrow> Chat \<Rightarrow> Chat" where
  "handleRate messageId r st =
     st\<lparr>store := updateRating messageId r (store st),
        effects := effects st @ [SendChatFeedback messageId r]\<rparr>"

section \<open>The audit page (pages/Audit.tsx)\<close>

text \<open>
  The component state \<open>handleAudit\<close> reads and writes, and the log. The state \<open>text\<close>
  is named \<open>audit_text\<close> here.
\<close>

record Audit =
  audit_text :: jsstring
  result :: jsstring
  isAuditing :: bool
  audit_effects :: "effect list"

definition handleAudit_rejects :: "Audit \<Rightarrow> bool" where
  \<comment> \<open>\<open>if (!text.trim() || text.trim().length < 50 || isAuditing) return\<close>\<close>
  "handleAudit_rejects st =
     (trim (audit_text st) = [] \<or> length (trim (audit_text st)) < 50 \<or> isAuditing st)"

definition handleAudit_start :: "Audit \<Rightarrow> Audit" where
  "handleAudit_start st =
     st\<lparr>isAuditing := True, result := [],
        audit_effects := audit_effects st @ [Haptic medium, SendAudit (audit_text st)]\<rparr>"

definition audit_event :: "StreamEvent \<Rightarrow> Audit \<Rightarrow> Audit" where
  "audit_event event st =
     (if ev_type event = ascii ''token'' \<and> truthy_str (ev_content event)
      then st\<lparr>result := result st @ str_val (ev_content event)\<rparr>
      else if ev_type event = ascii ''done''
      then st\<lparr>audit_effects := audit_effects st @ [Haptic success]\<rparr>
      else if ev_type event = ascii ''error''
      then st\<lparr>result := or_else (ev_content event) err_audit\<rparr>
      else st)"

definition audit_events :: "StreamEvent list \<Rightarrow> Audit \<Rightarrow> Audit" where
  "audit_events evs st = foldl (\<lambda>s ev. audit_event ev s) st evs"

definition handleAudit_stream :: "StreamEvent list \<times> stream_end \<Rightarrow> Audit \<Rightarrow> Audit" where
  "handleAudit_stream run st =
     (let st1 = audit_events (fst run) st;
          st2 = (case snd run of Closed \<Rightarrow> st1 | Threw \<Rightarrow> st1\<lparr>result := err_retry\<rparr>)
      in st2\<lparr>isAuditing := False\<rparr>)"

definition handleAudit :: "StreamEvent list \<times> stream_end \<Rightarrow> Audit \<Rightarrow> Audit" where
  "handleAudit run st =
     (if handleAudit_rejects st then st else handleAudit_stream run (handleAudit_start st))"

definition audit_submit :: "Audit \<Rightarrow> Audit" where
  \<comment> \<open>the state when the call of \<open>handleAudit\<close> returns to its caller\<close>
  "audit_submit st = (if handleAudit_rejects st then st else handleAudit_start st)"

section \<open>The streaming reader (api/client.ts)\<close>

text \<open>\<open>s.split("\n")\<close>: the pieces between line feeds; never an empty list.\<close>

fun split_nl :: "jsstring \<Rightarrow> jsstring list" where
  "split_nl [] = [[]]"
| "split_nl (c # cs) =
     (if c = 0x0A then [] # split_nl cs
      else (case split_nl cs of [] \<Rightarrow> [[c]] | l # ls \<Rightarrow> (c # l) # ls))"

definition startsWith :: "jsstring \<Rightarrow> jsstring \<Rightarrow> bool" where
  "startsWith p s = (take (length p) s = p)"

text \<open>
  The \<open>for\<close> loop over the complete lines. \<open>JSON.parse\<close> is a parameter: \<open>None\<close> is
  the exception it throws, which the \<open>catch\<close> swallows.
\<close>

fun frames :: "(jsstring \<Rightarrow> 'a option) \<Rightarrow> jsstring list \<Rightarrow> 'a list" where
  "frames parse [] = []"
| "frames parse (line # lines) =
     (if startsWith (ascii ''data: '') line
      then (case parse (drop 6 line) of
              Some data \<Rightarrow> data # frames parse lines
            | None \<Rightarrow> frames parse lines)
      else frames parse lines)"

text \<open>
  The \<open>while\<close> loop, over the decoded chunks that the reads return before the stream
  ends. \<open>lines.pop()\<close> takes the last piece off; it is the next buffer.
\<close>

fun read_loop :: "(jsstring \<Rightarrow> 'a option) \<Rightarrow> jsstring \<Rightarrow> jsstring list \<Rightarrow> 'a list" where
  "read_loop parse buffer [] = []"
| "read_loop parse buffer (v # rest) =
     (let lines = split_nl (buffer @ v)
      in frames parse (butlast lines) @ read_loop parse (last lines) rest)"

text \<open>
  The response: not ok, ok without a body, or ok with a body whose reads return the
  given chunks and then end or fail. A chunk here is the text that
  \<open>decoder.decode(value, { stream: true })\<close> returns for it: the decoder keeps the
  bytes of an unfinished character for the next call.
\<close>

datatype response = NotOk | NoBody | Body "jsstring list" stream_end

fun apiStream :: "(jsstring \<Rightarrow> 'a option) \<Rightarrow> response \<Rightarrow> 'a list \<times> stream_end" where
  "apiStream parse NotOk = ([], Threw)"
| "apiStream parse NoBody = ([], Closed)"
| "apiStream parse (Body chunks e) = (read_loop parse [] chunks, e)"

text \<open>Lines put back into a text, each followed by a line feed.\<close>

definition unlines :: "jsstring list \<Rightarrow> jsstring" where
  "unlines ls = concat (map (\<lambda>l. l @ [0x0A]) ls)"

section \<open>JSON texts of the wire format\<close>

text \<open>
  \<open>JSON.parse\<close> belongs to the platform, and the reader is modelled for any parser.
  For concrete frames, \<open>json_parse\<close> parses the JSON texts that the wire format uses:
  a string, an integer, \<open>true\<close>, \<open>false\<close>, \<open>null\<close>, or an object whose members
  have such values, with white space anywhere between tokens and all string escapes.
  Members are kept in the order of the text, and an integer is kept exactly. It gives
  \<open>None\<close> on every text that is not JSON. Arrays, objects inside objects and numbers
  with a fraction or an exponent are JSON that it does not cover: it gives \<open>None\<close> on
  them too, so it is used below only on texts without them.
\<close>

datatype json = JNull | JBool bool | JNum int | JStr jsstring | JObj "(jsstring \<times> json) list"

datatype token = TLBrace | TRBrace | TColon | TComma | TPrim json

definition json_ws :: "16 word \<Rightarrow> bool" where
  "json_ws c = (c = 0x20 \<or> c = 0x09 \<or> c = 0x0A \<or> c = 0x0D)"

definition punct :: "16 word \<Rightarrow> token option" where
  "punct c = map_of [(0x7B, TLBrace), (0x7D, TRBrace), (0x3A, TColon), (0x2C, TComma)] c"

definition is_delim :: "16 word \<Rightarrow> bool" where
  "is_delim c = (json_ws c \<or> punct c \<noteq> None \<or> c = 0x22)"

definition digit :: "16 word \<Rightarrow> int option" where
  "digit c = map_of [(0x30, 0), (0x31, 1), (0x32, 2), (0x33, 3), (0x34, 4), (0x35, 5),
                     (0x36, 6), (0x37, 7), (0x38, 8), (0x39, 9)] c"

definition hex_digit :: "16 word \<Rightarrow> nat option" where
  "hex_digit c = map_of [(0x30, 0), (0x31, 1), (0x32, 2), (0x33, 3), (0x34, 4), (0x35, 5),
                         (0x36, 6), (0x37, 7), (0x38, 8), (0x39, 9),
                         (0x61, 10), (0x62, 11), (0x63, 12), (0x64, 13), (0x65, 14), (0x66, 15),
                         (0x41, 10), (0x42, 11), (0x43, 12), (0x44, 13), (0x45, 14), (0x46, 15)] c"

definition escape :: "16 word \<Rightarrow> 16 word option" where
  "escape c = map_of [(0x22, 0x22), (0x5C, 0x5C), (0x2F, 0x2F), (0x62, 0x08), (0x66, 0x0C),
                      (0x6E, 0x0A), (0x72, 0x0D), (0x74, 0x09)] c"

fun digits :: "int \<Rightarrow> jsstring \<Rightarrow> int option" where
  "digits n [] = Some n"
| "digits n (c # cs) = (case digit c of None \<Rightarrow> None | Some d \<Rightarrow> digits (10 * n + d) cs)"

definition nat_lexeme :: "jsstring \<Rightarrow> int option" where
  "nat_lexeme w = (if w = [] \<or> (hd w = 0x30 \<and> tl w \<noteq> []) then None else digits 0 w)"

definition int_lexeme :: "jsstring \<Rightarrow> int option" where
  "int_lexeme w =
     (case w of
        [] \<Rightarrow> None
      | c # cs \<Rightarrow> if c = 0x2D then map_option uminus (nat_lexeme cs) else nat_lexeme w)"

definition bare_value :: "jsstring \<Rightarrow> json option" where
  "bare_value w =
     (if w = ascii ''true'' then Some (JBool True)
      else if w = ascii ''false'' then Some (JBool False)
      else if w = ascii ''null'' then Some JNull
      else map_option JNum (int_lexeme w))"

datatype lex_state = Idle | Bare jsstring | Str jsstring | Esc jsstring | Uni jsstring "nat list"

definition emit :: "token list \<Rightarrow> token list option \<Rightarrow> token list option" where
  "emit ts r = map_option ((@) ts) r"

definition delim_tokens :: "16 word \<Rightarrow> token list" where
  "delim_tokens c = (case punct c of None \<Rightarrow> [] | Some t \<Rightarrow> [t])"

definition after_delim :: "16 word \<Rightarrow> lex_state" where
  "after_delim c = (if c = 0x22 then Str [] else Idle)"

fun lex :: "lex_state \<Rightarrow> jsstring \<Rightarrow> token list option" where
  "lex Idle [] = Some []"
| "lex (Bare w) [] = (case bare_value (rev w) of None \<Rightarrow> None | Some v \<Rightarrow> Some [TPrim v])"
| "lex (Str s) [] = None"
| "lex (Esc s) [] = None"
| "lex (Uni s ds) [] = None"
| "lex Idle (c # cs) =
     (if is_delim c then emit (delim_tokens c) (lex (after_delim c) cs)
      else lex (Bare [c]) cs)"
| "lex (Bare w) (c # cs) =
     (if is_delim c
      then (case bare_value (rev w) of
              None \<Rightarrow> None
            | Some v \<Rightarrow> emit (TPrim v # delim_tokens c) (lex (after_delim c) cs))
      else lex (Bare (c # w)) cs)"
| "lex (Str s) (c # cs) =
     (if c = 0x22 then emit [TPrim (JStr (rev s))] (lex Idle cs)
      else if c = 0x5C then lex (Esc s) cs
      else if c < 0x20 then None
      else lex (Str (c # s)) cs)"
| "lex (Esc s) (c # cs) =
     (if c = 0x75 then lex (Uni s []) cs
      else (case escape c of None \<Rightarrow> None | Some e \<Rightarrow> lex (Str (e # s)) cs))"
| "lex (Uni s ds) (c # cs) =
     (case hex_digit c of
        None \<Rightarrow> None
      | Some d \<Rightarrow>
          if length ds = 3
          then lex (Str (of_nat (foldl (\<lambda>n h. 16 * n + h) 0 (ds @ [d])) # s)) cs
          else lex (Uni s (ds @ [d])) cs)"

fun members :: "token list \<Rightarrow> (jsstring \<times> json) list option" where
  "members (TPrim k # TColon # TPrim v # t # rest) =
     (case k of
        JStr key \<Rightarrow>
          if t = TRBrace \<and> rest = [] then Some [(key, v)]
          else if t = TComma then map_option ((#) (key, v)) (members rest)
          else None
      | _ \<Rightarrow> None)"
| "members _ = None"

fun json_value :: "token list \<Rightarrow> json option" where
  "json_value [TPrim v] = Some v"
| "json_value [TLBrace, TRBrace] = Some (JObj [])"
| "json_value (TLBrace # rest) = map_option JObj (members rest)"
| "json_value _ = None"

definition json_parse :: "jsstring \<Rightarrow> json option" where
  "json_parse s = (case lex Idle s of None \<Rightarrow> None | Some ts \<Rightarrow> json_value ts)"

section \<open>Predicates on the last message\<close>

text \<open>Used to follow the last message through the loop of \<open>handleSend\<close>.\<close>

definition last_assistant :: "ChatState \<Rightarrow> bool" where
  "last_assistant s = (messages s \<noteq> [] \<and> role (last (messages s)) = Assistant)"

definition settled :: "ChatState \<Rightarrow> bool" where
  "settled s = (last_assistant s \<and> isStreaming (last (messages s)) = Some False \<and>
                content (last (messages s)) \<noteq> [])"

definition flagged :: "ChatState \<Rightarrow> bool" where
  "flagged s = (last_assistant s \<and> isStreaming (last (messages s)) \<noteq> None)"

section \<open>Concrete inputs\<close>

definition history_msg :: "int \<Rightarrow> Role \<Rightarrow> string \<Rightarrow> ChatMsg" where
  "history_msg n r c =
     \<lparr>msg_id = Some n, role = r, content = ascii c, rating = Some Null,
      created_at = Some (ascii ''2024-01-01T00:00:00''), isStreaming = None\<rparr>"

definition rated_store :: ChatState where
  "rated_store =
     \<lparr>messages = [history_msg 7 Assistant ''a'', history_msg 8 Assistant ''b'',
                  history_msg 7 Assistant ''c''],
      isLoading = False, hasMore = True\<rparr>"

definition loaded_store :: ChatState where
  "loaded_store =
     \<lparr>messages = [history_msg 8 User ''q'', history_msg 9 Assistant ''r''],
      isLoading = False, hasMore = True\<rparr>"

definition chat_page :: "ChatState \<Rightarrow> string \<Rightarrow> Chat" where
  "chat_page s t = \<lparr>store = s, input = ascii t, isSending = False, effects = []\<rparr>"

definition token_event :: "jsstring \<Rightarrow> StreamEvent" where
  "token_event c = \<lparr>ev_type = ascii ''token'', ev_content = Some c, message_id = None\<rparr>"

definition error_event :: "jsstring option \<Rightarrow> StreamEvent" where
  "error_event c = \<lparr>ev_type = ascii ''error'', ev_content = c, message_id = None\<rparr>"

definition finalized_store :: ChatState where
  "finalized_store =
     \<lparr>messages = [user_msg (ascii ''Hi''),
                  \<lparr>msg_id = Some 42, role = Assistant, content = ascii ''Hello'', rating = None,
                   created_at = None, isStreaming = Some False\<rparr>],
      isLoading = False, hasMore = False\<rparr>"

definition pending_page :: Chat where
  "pending_page = submit (chat_page loaded_store ''hi'')"

definition empty_store :: ChatState where
  "empty_store = \<lparr>messages = [], isLoading = False, hasMore = False\<rparr>"

definition stuck_page :: Chat where
  \<comment> \<open>after a turn whose stream yields one token and closes, and new input\<close>
  "stuck_page =
     (handleSend ([token_event (ascii ''a'')], Closed) (chat_page empty_store ''hi''))
       \<lparr>input := ascii ''again''\<rparr>"

definition audit_page :: "string \<Rightarrow> Audit" where
  "audit_page t = \<lparr>audit_text = ascii t, result = [], isAuditing = False, audit_effects = []\<rparr>"

definition letters49 :: string where
  "letters49 = ''xxxxxxxxxxxxxxxxxxxxxxxxxxxxxxxxxxxxxxxxxxxxxxxxx''"

definition letters50 :: string where
  "letters50 = ''xxxxxxxxxxxxxxxxxxxxxxxxxxxxxxxxxxxxxxxxxxxxxxxxxx''"

definition text49 :: string where
  \<comment> \<open>49 letters between white space: 52 code units, 49 after trimming\<close>
  "text49 = ''  '' @ letters49 @ '' ''"

definition text50 :: string where
  \<comment> \<open>50 letters between white space\<close>
  "text50 = '' '' @ letters50 @ ''  ''"

definition token_json :: "string \<Rightarrow> json" where
  "token_json c = JObj [(ascii ''type'', JStr (ascii ''token'')), (ascii ''content'', JStr (ascii c))]"

definition done_json :: "int \<Rightarrow> json" where
  "done_json n = JObj [(ascii ''type'', JStr (ascii ''done'')), (ascii ''message_id'', JNum n)]"

section \<open>The store operations on the list\<close>

lemma update_last: "xs \<noteq> [] \<Longrightarrow> xs[length xs - Suc 0 := y] = butlast xs @ [y]"
  by (induction xs rule: rev_induct) simp_all

lemma appendToLast_messages:
  "messages (appendToLast c s) =
     (if messages s \<noteq> [] \<and> role (last (messages s)) = Assistant
      then butlast (messages s) @ [(last (messages s))\<lparr>content := content (last (messages s)) @ c\<rparr>]
      else messages s)"
  by (simp add: appendToLast_def Let_def update_last)

lemma finishStreaming_messages:
  "messages (finishStreaming n s) =
     (if messages s \<noteq> [] \<and> role (last (messages s)) = Assistant \<and>
         isStreaming (last (messages s)) = Some True
      then butlast (messages s) @
           [(last (messages s))\<lparr>msg_id := Some n, isStreaming := Some False\<rparr>]
      else messages s)"
  by (simp add: finishStreaming_def Let_def update_last)

lemma appendToLast_other: "isLoading (appendToLast c s) = isLoading s" "hasMore (appendToLast c s) = hasMore s"
  by (simp_all add: appendToLast_def Let_def)

lemma finishStreaming_other: "isLoading (finishStreaming c s) = isLoading s" "hasMore (finishStreaming c s) = hasMore s"
  by (simp_all add: finishStreaming_def Let_def)

section \<open>Rating\<close>

text \<open>
  C10. \<open>updateRating messageId r\<close> keeps the length and the order of the list and the
  other two fields of the store; at every position, a message whose id is \<open>messageId\<close>
  becomes the same message with \<open>rating = r\<close> (all such messages, not only the first), and
  every other message is unchanged. So role, content, isStreaming, created_at and id of
  every message stay as they were.
\<close>

theorem updateRating_frame:
  "length (messages (updateRating messageId r s)) = length (messages s) \<and>
   isLoading (updateRating messageId r s) = isLoading s \<and>
   hasMore (updateRating messageId r s) = hasMore s \<and>
   (\<forall>i < length (messages s).
      (msg_id (messages s ! i) = Some messageId \<longrightarrow>
         messages (updateRating messageId r s) ! i = (messages s ! i)\<lparr>rating := Some (Val r)\<rparr>) \<and>
      (msg_id (messages s ! i) \<noteq> Some messageId \<longrightarrow>
         messages (updateRating messageId r s) ! i = messages s ! i))"
  by (simp add: updateRating_def)

theorem updateRating_frame_witness:
  "length (messages (updateRating 7 1 rated_store)) = 3 \<and>
   messages (updateRating 7 1 rated_store) ! 0 = (history_msg 7 Assistant ''a'')\<lparr>rating := Some (Val 1)\<rparr> \<and>
   messages (updateRating 7 1 rated_store) ! 1 = history_msg 8 Assistant ''b'' \<and>
   messages (updateRating 7 1 rated_store) ! 2 = (history_msg 7 Assistant ''c'')\<lparr>rating := Some (Val 1)\<rparr>"
proof -
  have len: "length (messages rated_store) = 3"
    by (simp add: rated_store_def)
  have ids: "msg_id (messages rated_store ! 0) = Some 7"
    "msg_id (messages rated_store ! 1) \<noteq> Some 7"
    "msg_id (messages rated_store ! 2) = Some 7"
    by (simp_all add: rated_store_def history_msg_def)
  have nths: "messages rated_store ! 0 = history_msg 7 Assistant ''a''"
    "messages rated_store ! 1 = history_msg 8 Assistant ''b''"
    "messages rated_store ! 2 = history_msg 7 Assistant ''c''"
    by (simp_all add: rated_store_def)
  from updateRating_frame [of 7 1 rated_store] len ids
  have "length (messages (updateRating 7 1 rated_store)) = 3"
    and "messages (updateRating 7 1 rated_store) ! 0 = (messages rated_store ! 0)\<lparr>rating := Some (Val 1)\<rparr>"
    and "messages (updateRating 7 1 rated_store) ! 1 = messages rated_store ! 1"
    and "messages (updateRating 7 1 rated_store) ! 2 = (messages rated_store ! 2)\<lparr>rating := Some (Val 1)\<rparr>"
    by simp_all
  with nths show ?thesis
    by simp
qed

text \<open>
  C9. Rating a message twice with the same value leaves the store, the input and the
  in-flight flag as one rating does (only the log of requests grows); rating \<open>+1\<close> and
  then \<open>-1\<close> keeps every id in place and leaves every message with that id rated
  \<open>-1\<close>.
\<close>

theorem rate_twice:
  "store (handleRate messageId r (handleRate messageId r st)) = store (handleRate messageId r st) \<and>
   input (handleRate messageId r (handleRate messageId r st)) = input (handleRate messageId r st) \<and>
   isSending (handleRate messageId r (handleRate messageId r st)) = isSending (handleRate messageId r st) \<and>
   map msg_id (messages (store (handleRate messageId (- 1) (handleRate messageId 1 st)))) =
     map msg_id (messages (store st)) \<and>
   (\<forall>m \<in> set (messages (store (handleRate messageId (- 1) (handleRate messageId 1 st)))).
      msg_id m = Some messageId \<longrightarrow> rating m = Some (Val (- 1)))"
  by (auto simp add: handleRate_def updateRating_def)

theorem rate_twice_witness:
  "messages (store (handleRate 7 (- 1) (handleRate 7 1 (chat_page rated_store '''')))) =
     [(history_msg 7 Assistant ''a'')\<lparr>rating := Some (Val (- 1))\<rparr>,
      history_msg 8 Assistant ''b'',
      (history_msg 7 Assistant ''c'')\<lparr>rating := Some (Val (- 1))\<rparr>] \<and>
   store (handleRate 7 1 (handleRate 7 1 (chat_page rated_store ''''))) =
     store (handleRate 7 1 (chat_page rated_store ''''))"
  using rate_twice [of 7 1 "chat_page rated_store ''''"]
  by (simp add: handleRate_def updateRating_def chat_page_def rated_store_def history_msg_def)

section \<open>Prepending a page\<close>

text \<open>
  C7, as the code has it. \<open>prependMessages\<close> puts the page in front of the list and
  removes nothing, so the merged list has no repeated id exactly when the page has none,
  the list has none, and the two share none.
\<close>

theorem prepend_distinct:
  "messages (prependMessages page s) = page @ messages s \<and>
   (distinct (serverIds (messages (prependMessages page s))) \<longleftrightarrow>
    distinct (serverIds page) \<and> distinct (serverIds (messages s)) \<and>
    set (serverIds page) \<inter> set (serverIds (messages s)) = {})"
  by (simp add: prependMessages_def serverIds_def)

text \<open>
  C7 as stated fails: a page that repeats an id of the list is prepended as it is.
\<close>

theorem prepend_dup:
  "distinct (serverIds [history_msg 8 User ''q'']) \<and>
   distinct (serverIds (messages loaded_store)) \<and>
   \<not> distinct (serverIds (messages (prependMessages [history_msg 8 User ''q''] loaded_store)))"
  by (simp add: prependMessages_def serverIds_def loaded_store_def history_msg_def)

section \<open>After finalization\<close>

text \<open>
  C2, as the code has it. When the last message is an assistant message that is not
  streaming, \<open>finishStreaming\<close> changes nothing; \<open>appendToLast\<close> appends to the content
  of that last message and changes nothing else (no other message, no other field),
  and \<open>finishStreaming\<close> still changes nothing afterwards: the streaming flag is cleared
  once and stays cleared.
\<close>

theorem finalized_last:
  assumes "messages s \<noteq> []" and "role (last (messages s)) = Assistant"
    and "isStreaming (last (messages s)) \<noteq> Some True"
  shows "finishStreaming n s = s \<and>
         appendToLast c s =
           s\<lparr>messages := butlast (messages s) @
                  [(last (messages s))\<lparr>content := content (last (messages s)) @ c\<rparr>]\<rparr> \<and>
         finishStreaming n (appendToLast c s) = appendToLast c s"
proof (intro conjI)
  show "finishStreaming n s = s"
    using assms by (simp add: finishStreaming_def Let_def)
  show "appendToLast c s =
           s\<lparr>messages := butlast (messages s) @
                  [(last (messages s))\<lparr>content := content (last (messages s)) @ c\<rparr>]\<rparr>"
    using assms by (simp add: appendToLast_def Let_def update_last)
  then show "finishStreaming n (appendToLast c s) = appendToLast c s"
    using assms by (simp add: finishStreaming_def Let_def)
qed

theorem finalized_last_witness:
  "finishStreaming 43 finalized_store = finalized_store \<and>
   messages (appendToLast (ascii ''!'') finalized_store) =
     [user_msg (ascii ''Hi''),
      \<lparr>msg_id = Some 42, role = Assistant, content = ascii ''Hello!'', rating = None,
       created_at = None, isStreaming = Some False\<rparr>]"
proof -
  have h: "messages finalized_store \<noteq> []" "role (last (messages finalized_store)) = Assistant"
    "isStreaming (last (messages finalized_store)) \<noteq> Some True"
    by (simp_all add: finalized_store_def)
  from finalized_last [OF h, of 43 "ascii ''!''"] show ?thesis
    by (simp add: finalized_store_def ascii_def)
qed

text \<open>
  C2 as stated fails for \<open>appendToLast\<close>: it tests the role of the last message only,
  so a token that arrives after finalization is appended to the finalized message.
\<close>

theorem finalized_append_cex:
  "role (last (messages finalized_store)) = Assistant \<and>
   isStreaming (last (messages finalized_store)) = Some False \<and>
   content (last (messages finalized_store)) = ascii ''Hello'' \<and>
   content (last (messages (appendToLast (ascii ''!'') finalized_store))) = ascii ''Hello!'' \<and>
   appendToLast (ascii ''!'') finalized_store \<noteq> finalized_store"
  by (simp add: finalized_store_def appendToLast_def Let_def ascii_def)

section \<open>Tokens\<close>

lemma ascii_token_ne: "ascii ''token'' \<noteq> ascii ''done''" "ascii ''token'' \<noteq> ascii ''error''" "ascii ''done'' \<noteq> ascii ''error''"
  by (simp_all add: ascii_def)

lemma chat_event_token:
  "chat_event (token_event c) st = st\<lparr>store := appendToLast c (store st)\<rparr>"
proof (cases "c = []")
  case True
  have "appendToLast [] (store st) = store st"
    by (simp add: appendToLast_def Let_def list_update_same_conv last_conv_nth)
  with True show ?thesis
    by (simp add: chat_event_def token_event_def ascii_token_ne)
next
  case False
  then show ?thesis
    by (simp add: chat_event_def token_event_def)
qed

lemma appendToLast_fold:
  assumes "messages s \<noteq> []" and "role (last (messages s)) = Assistant"
  shows "messages (foldl (\<lambda>s c. appendToLast c s) s cs) =
         butlast (messages s) @ [(last (messages s))\<lparr>content := content (last (messages s)) @ concat cs\<rparr>]"
  using assms
proof (induction cs arbitrary: s)
  case Nil
  then show ?case by simp
next
  case (Cons c cs)
  let ?s = "appendToLast c s"
  from Cons.prems have m: "messages ?s = butlast (messages s) @ [(last (messages s))\<lparr>content := content (last (messages s)) @ c\<rparr>]"
    by (simp add: appendToLast_messages)
  then have "messages ?s \<noteq> []" "role (last (messages ?s)) = Assistant"
    using Cons.prems by simp_all
  from Cons.IH [OF this] m show ?case
    by simp
qed

lemma chat_events_tokens:
  "store (chat_events (map token_event cs) st) = foldl (\<lambda>s c. appendToLast c s) (store st) cs"
  unfolding chat_events_def
  by (induction cs arbitrary: st) (simp_all add: chat_event_token)

text \<open>
  C5. Token events with contents \<open>c1..cn\<close>, handled in order by the loop of
  \<open>handleSend\<close> while the last message is an assistant message, leave every other
  message alone and append \<open>c1 @ ... @ cn\<close> to the content of the last one. For the
  placeholder that \<open>handleSend\<close> has just appended, whose content is empty, the final
  content is that concatenation.
\<close>

theorem tokens_concatenate:
  "(messages (store st) \<noteq> [] \<and> role (last (messages (store st))) = Assistant \<longrightarrow>
      messages (store (chat_events (map token_event cs) st)) =
        butlast (messages (store st)) @
        [(last (messages (store st)))\<lparr>content := content (last (messages (store st))) @ concat cs\<rparr>]) \<and>
   messages (store (chat_events (map token_event cs) (handleSend_start st))) =
     messages (store st) @ [user_msg (trim (input st)), placeholder\<lparr>content := concat cs\<rparr>]"
proof (intro conjI impI)
  assume "messages (store st) \<noteq> [] \<and> role (last (messages (store st))) = Assistant"
  then show "messages (store (chat_events (map token_event cs) st)) =
        butlast (messages (store st)) @
        [(last (messages (store st)))\<lparr>content := content (last (messages (store st))) @ concat cs\<rparr>]"
    using appendToLast_fold [of "store st" cs] by (simp add: chat_events_tokens)
next
  let ?s = "store (handleSend_start st)"
  have m: "messages ?s = messages (store st) @ [user_msg (trim (input st)), placeholder]"
    by (simp add: handleSend_start_def addMessage_def Let_def)
  then have "messages ?s \<noteq> []" and "role (last (messages ?s)) = Assistant"
    by (simp_all add: placeholder_def)
  from appendToLast_fold [OF this, of cs] m
  show "messages (store (chat_events (map token_event cs) (handleSend_start st))) =
     messages (store st) @ [user_msg (trim (input st)), placeholder\<lparr>content := concat cs\<rparr>]"
    by (simp add: chat_events_tokens butlast_append placeholder_def)
qed

theorem tokens_concatenate_witness:
  "messages (store (chat_events (map token_event [ascii ''Hel'', [], ascii ''lo'']) pending_page)) =
     [history_msg 8 User ''q'', history_msg 9 Assistant ''r'', user_msg (ascii ''hi''),
      placeholder\<lparr>content := ascii ''Hello''\<rparr>]"
proof -
  have m: "messages (store pending_page) =
      [history_msg 8 User ''q'', history_msg 9 Assistant ''r'', user_msg (ascii ''hi''), placeholder]"
    by (simp add: pending_page_def submit_def handleSend_rejects_def handleSend_start_def
        chat_page_def loaded_store_def addMessage_def trim_def is_ws_def ascii_def Let_def)
  then have h: "messages (store pending_page) \<noteq> [] \<and>
      role (last (messages (store pending_page))) = Assistant"
    by (simp add: placeholder_def)
  from tokens_concatenate [of pending_page "[ascii ''Hel'', [], ascii ''lo'']"] h m show ?thesis
    by (simp add: placeholder_def ascii_def)
qed

section \<open>Submitting\<close>

text \<open>
  C3. \<open>handleSend\<close> returns at once, with the state unchanged, exactly when the trimmed
  input is empty or a send is in flight. Otherwise, when the call returns to its caller,
  the list is the old list followed by the user message with the trimmed text and then
  the assistant placeholder with empty content and \<open>isStreaming = true\<close>.
\<close>

theorem submit_appends:
  "(handleSend_rejects st \<longleftrightarrow> trim (input st) = [] \<or> isSending st) \<and>
   (handleSend_rejects st \<longrightarrow> submit st = st \<and> handleSend run st = st) \<and>
   (\<not> handleSend_rejects st \<longrightarrow>
      messages (store (submit st)) =
        messages (store st) @
        [\<lparr>msg_id = None, role = User, content = trim (input st), rating = None,
          created_at = None, isStreaming = None\<rparr>,
         \<lparr>msg_id = None, role = Assistant, content = [], rating = None,
          created_at = None, isStreaming = Some True\<rparr>] \<and>
      isSending (submit st))"
  by (simp add: handleSend_rejects_def submit_def handleSend_def handleSend_start_def
      addMessage_def user_msg_def placeholder_def Let_def)

theorem submit_appends_witness:
  "\<not> handleSend_rejects (chat_page loaded_store '' hi  '') \<and>
   messages (store (submit (chat_page loaded_store '' hi  ''))) =
     [history_msg 8 User ''q'', history_msg 9 Assistant ''r'', user_msg (ascii ''hi''), placeholder] \<and>
   handleSend_rejects (chat_page loaded_store ''   '') \<and>
   submit (chat_page loaded_store ''   '') = chat_page loaded_store ''   '' \<and>
   handleSend_rejects ((chat_page loaded_store ''hi'')\<lparr>isSending := True\<rparr>) \<and>
   submit ((chat_page loaded_store ''hi'')\<lparr>isSending := True\<rparr>) = (chat_page loaded_store ''hi'')\<lparr>isSending := True\<rparr>"
proof -
  have a: "\<not> handleSend_rejects (chat_page loaded_store '' hi  '')"
    by (simp add: handleSend_rejects_def chat_page_def trim_def is_ws_def ascii_def)
  have b: "handleSend_rejects (chat_page loaded_store ''   '')"
    by (simp add: handleSend_rejects_def chat_page_def trim_def is_ws_def ascii_def)
  have c: "handleSend_rejects ((chat_page loaded_store ''hi'')\<lparr>isSending := True\<rparr>)"
    by (simp add: handleSend_rejects_def)
  have t: "trim (input (chat_page loaded_store '' hi  '')) = ascii ''hi''"
    by (simp add: chat_page_def trim_def is_ws_def ascii_def)
  have m: "messages (store (chat_page loaded_store '' hi  '')) = [history_msg 8 User ''q'', history_msg 9 Assistant ''r'']"
    by (simp add: chat_page_def loaded_store_def)
  from submit_appends [of "chat_page loaded_store '' hi  ''"] a t m
  have 1: "messages (store (submit (chat_page loaded_store '' hi  ''))) =
     [history_msg 8 User ''q'', history_msg 9 Assistant ''r'', user_msg (ascii ''hi''), placeholder]"
    by (simp add: user_msg_def placeholder_def)
  from submit_appends [of "chat_page loaded_store ''   ''"] b
  have 2: "submit (chat_page loaded_store ''   '') = chat_page loaded_store ''   ''"
    by simp
  from submit_appends [of "(chat_page loaded_store ''hi'')\<lparr>isSending := True\<rparr>"] c
  have 3: "submit ((chat_page loaded_store ''hi'')\<lparr>isSending := True\<rparr>) = (chat_page loaded_store ''hi'')\<lparr>isSending := True\<rparr>"
    by simp
  from a b c 1 2 3 show ?thesis by simp
qed

section \<open>The length gate of the audit page\<close>

lemma ascii_length: "length (ascii s) = length s"
  by (simp add: ascii_def)

lemma trim_text49: "trim (ascii text49) = ascii letters49"
  by (simp add: text49_def letters49_def trim_def is_ws_def ascii_def)

lemma trim_text50: "trim (ascii text50) = ascii letters50"
  by (simp add: text50_def letters50_def trim_def is_ws_def ascii_def)

lemma length_texts: "length (trim (ascii text49)) = 49" "length (trim (ascii text50)) = 50"
  by (simp_all add: trim_text49 trim_text50 ascii_length letters49_def letters50_def)

text \<open>
  C8. \<open>handleAudit\<close> rejects exactly when the trimmed text has fewer than 50 code
  units or an audit is in flight. A text whose trimmed length is below 50 is rejected in
  every state: the handler returns the state as it was, so nothing is appended to the
  log and no request is issued. A text whose trimmed length is at least 50 passes; with
  no audit in flight the request with the text is issued before the handler first
  suspends.
\<close>

theorem audit_length_gate:
  "(handleAudit_rejects st \<longleftrightarrow> length (trim (audit_text st)) < 50 \<or> isAuditing st) \<and>
   (length (trim (audit_text st)) < 50 \<longrightarrow>
      audit_submit st = st \<and> handleAudit run st = st) \<and>
   (50 \<le> length (trim (audit_text st)) \<and> \<not> isAuditing st \<longrightarrow>
      audit_effects (audit_submit st) = audit_effects st @ [Haptic medium, SendAudit (audit_text st)])"
  by (auto simp add: handleAudit_rejects_def audit_submit_def handleAudit_def handleAudit_start_def)

theorem audit_length_gate_witness:
  "length (trim (audit_text (audit_page text49))) = 49 \<and>
   handleAudit ([], Closed) (audit_page text49) = audit_page text49 \<and>
   audit_effects (handleAudit ([], Closed) (audit_page text49)) = [] \<and>
   length (trim (audit_text (audit_page text50))) = 50 \<and>
   audit_effects (audit_submit (audit_page text50)) = [Haptic medium, SendAudit (ascii text50)]"
proof -
  have l: "length (trim (audit_text (audit_page text49))) = 49"
    "length (trim (audit_text (audit_page text50))) = 50"
    by (simp_all add: audit_page_def length_texts)
  have i: "\<not> isAuditing (audit_page text50)" "audit_effects (audit_page text50) = []"
    "audit_text (audit_page text50) = ascii text50" "audit_effects (audit_page text49) = []"
    by (simp_all add: audit_page_def)
  from audit_length_gate [of "audit_page text49" "([], Closed)"] l
  have 1: "handleAudit ([], Closed) (audit_page text49) = audit_page text49"
    by simp
  from audit_length_gate [of "audit_page text50"] l i
  have 2: "audit_effects (audit_submit (audit_page text50)) = [Haptic medium, SendAudit (ascii text50)]"
    by simp
  from l 1 2 i show ?thesis
    by simp
qed

section \<open>Turns that fail\<close>

lemma appendToLast_keeps:
  "last_assistant s \<Longrightarrow> last_assistant (appendToLast c s)"
  "butlast (messages (appendToLast c s)) = butlast (messages s)"
  "settled s \<Longrightarrow> settled (appendToLast c s)"
  by (simp_all add: last_assistant_def settled_def appendToLast_messages)

lemma finishStreaming_keeps:
  "last_assistant s \<Longrightarrow> last_assistant (finishStreaming n s)"
  "butlast (messages (finishStreaming n s)) = butlast (messages s)"
  "settled s \<Longrightarrow> settled (finishStreaming n s)"
  by (simp_all add: last_assistant_def settled_def finishStreaming_messages)

lemma fail_settles:
  assumes "last_assistant s" and "isStreaming (last (messages s)) \<noteq> None" and "c \<noteq> []"
  shows "settled (finishStreaming n (appendToLast c s))"
  using assms
  by (auto simp add: last_assistant_def settled_def finishStreaming_messages appendToLast_messages)

lemma flagged_keeps:
  "flagged s \<Longrightarrow> flagged (appendToLast c s)"
  "flagged s \<Longrightarrow> flagged (finishStreaming n s)"
  by (auto simp add: flagged_def last_assistant_def finishStreaming_messages appendToLast_messages)

lemma settled_flagged: "settled s \<Longrightarrow> flagged s"
  by (simp add: settled_def flagged_def)

lemma or_else_nonempty: "d \<noteq> [] \<Longrightarrow> or_else x d \<noteq> []"
  by (cases x) (simp_all add: or_else_def)

lemma err_nonempty: "err_short \<noteq> []" "err_retry \<noteq> []" "err_audit \<noteq> []"
  by (simp_all add: err_short_def err_retry_def err_audit_def)

lemma chat_event_keeps:
  "flagged (store st) \<Longrightarrow> flagged (store (chat_event ev st))"
  "butlast (messages (store (chat_event ev st))) = butlast (messages (store st))"
  "settled (store st) \<Longrightarrow> settled (store (chat_event ev st))"
  by (simp_all add: chat_event_def flagged_keeps appendToLast_keeps finishStreaming_keeps)

lemma chat_event_error:
  assumes "flagged (store st)" and "ev_type ev = ascii ''error''"
  shows "settled (store (chat_event ev st))"
  using assms
  by (simp add: chat_event_def ascii_token_ne [symmetric] flagged_def fail_settles or_else_nonempty err_nonempty)

lemma chat_events_keeps:
  "flagged (store st) \<Longrightarrow> flagged (store (chat_events evs st))"
  "butlast (messages (store (chat_events evs st))) = butlast (messages (store st))"
  "settled (store st) \<Longrightarrow> settled (store (chat_events evs st))"
  unfolding chat_events_def
  by (induction evs arbitrary: st) (simp_all add: chat_event_keeps)

lemma chat_events_error:
  assumes "flagged (store st)" and "\<exists>ev \<in> set evs. ev_type ev = ascii ''error''"
  shows "settled (store (chat_events evs st))"
  using assms unfolding chat_events_def
proof (induction evs arbitrary: st)
  case Nil
  then show ?case by simp
next
  case (Cons ev evs)
  show ?case
  proof (cases "ev_type ev = ascii ''error''")
    case True
    with Cons.prems(1) have "settled (store (chat_event ev st))"
      by (rule chat_event_error)
    then show ?thesis
      using chat_events_keeps(3) [of "chat_event ev st" evs] by (simp add: chat_events_def)
  next
    case False
    with Cons.prems(2) have "\<exists>e \<in> set evs. ev_type e = ascii ''error''"
      by auto
    moreover from Cons.prems(1) have "flagged (store (chat_event ev st))"
      by (rule chat_event_keeps)
    ultimately show ?thesis
      using Cons.IH by simp
  qed
qed

lemma handleSend_start_store:
  "messages (store (handleSend_start st)) = messages (store st) @ [user_msg (trim (input st)), placeholder]"
  by (simp add: handleSend_start_def addMessage_def Let_def)

lemma handleSend_start_flagged: "flagged (store (handleSend_start st))"
  by (simp add: flagged_def last_assistant_def handleSend_start_store placeholder_def)

lemma handleSend_stream_settled:
  assumes "flagged (store st)"
    and "snd run = Threw \<or> (\<exists>ev \<in> set (fst run). ev_type ev = ascii ''error'')"
  shows "settled (store (handleSend_stream run st))"
proof (cases "snd run")
  case Closed
  with assms have "settled (store (chat_events (fst run) st))"
    by (simp add: chat_events_error)
  with Closed show ?thesis
    by (simp add: handleSend_stream_def Let_def)
next
  case Threw
  from assms(1) have "flagged (store (chat_events (fst run) st))"
    by (rule chat_events_keeps)
  then have "settled (finishStreaming 0 (appendToLast err_retry (store (chat_events (fst run) st))))"
    by (simp add: flagged_def fail_settles err_nonempty)
  with Threw show ?thesis
    by (simp add: handleSend_stream_def Let_def)
qed

lemma handleSend_stream_butlast:
  "butlast (messages (store (handleSend_stream run st))) = butlast (messages (store st))"
  by (cases "snd run")
    (simp_all add: handleSend_stream_def Let_def chat_events_keeps appendToLast_keeps finishStreaming_keeps)

lemma handleSend_stream_flag: "\<not> isSending (handleSend_stream run st)"
  by (simp add: handleSend_stream_def Let_def)

lemma audit_event_keeps: "result st \<noteq> [] \<Longrightarrow> result (audit_event ev st) \<noteq> []"
  by (simp add: audit_event_def or_else_nonempty err_nonempty)

lemma audit_event_error: "ev_type ev = ascii ''error'' \<Longrightarrow> result (audit_event ev st) \<noteq> []"
  by (simp add: audit_event_def ascii_token_ne [symmetric] or_else_nonempty err_nonempty)

lemma audit_events_keeps: "result st \<noteq> [] \<Longrightarrow> result (audit_events evs st) \<noteq> []"
  unfolding audit_events_def
  by (induction evs arbitrary: st) (simp_all add: audit_event_keeps)

lemma audit_events_error:
  "\<exists>ev \<in> set evs. ev_type ev = ascii ''error'' \<Longrightarrow> result (audit_events evs st) \<noteq> []"
  unfolding audit_events_def
proof (induction evs arbitrary: st)
  case Nil
  then show ?case by simp
next
  case (Cons ev evs)
  show ?case
  proof (cases "ev_type ev = ascii ''error''")
    case True
    then have "result (audit_event ev st) \<noteq> []"
      by (rule audit_event_error)
    then show ?thesis
      using audit_events_keeps [of "audit_event ev st" evs] by (simp add: audit_events_def)
  next
    case False
    with Cons.prems have "\<exists>e \<in> set evs. ev_type e = ascii ''error''"
      by auto
    then show ?thesis
      using Cons.IH by simp
  qed
qed

text \<open>
  C4, as the code has it. A chat turn that is accepted and whose stream yields an error
  event or throws ends with the in-flight flag cleared and with the list being the old
  list, the user message, and an assistant message that is not streaming and has
  non-empty content; the messages that were there before the turn are untouched, so no
  message is streaming afterwards if none was before. An audit turn of that kind ends
  with \<open>isAuditing\<close> cleared and a non-empty result.
\<close>

theorem failed_turn_settles:
  "(\<not> handleSend_rejects st \<and>
      (snd run = Threw \<or> (\<exists>ev \<in> set (fst run). ev_type ev = ascii ''error'')) \<longrightarrow>
      messages (store (handleSend run st)) \<noteq> [] \<and>
      butlast (messages (store (handleSend run st))) =
        messages (store st) @ [user_msg (trim (input st))] \<and>
      role (last (messages (store (handleSend run st)))) = Assistant \<and>
      isStreaming (last (messages (store (handleSend run st)))) = Some False \<and>
      content (last (messages (store (handleSend run st)))) \<noteq> [] \<and>
      \<not> isSending (handleSend run st) \<and>
      ((\<forall>m \<in> set (messages (store st)). isStreaming m \<noteq> Some True) \<longrightarrow>
       (\<forall>m \<in> set (messages (store (handleSend run st))). isStreaming m \<noteq> Some True))) \<and>
   (\<not> handleAudit_rejects a \<and>
      (snd run = Threw \<or> (\<exists>ev \<in> set (fst run). ev_type ev = ascii ''error'')) \<longrightarrow>
      \<not> isAuditing (handleAudit run a) \<and> result (handleAudit run a) \<noteq> [])"
proof (intro conjI impI; elim conjE)
  assume acc: "\<not> handleSend_rejects st"
    and fail: "snd run = Threw \<or> (\<exists>ev \<in> set (fst run). ev_type ev = ascii ''error'')"
  let ?r = "handleSend run st"
  from acc have r: "?r = handleSend_stream run (handleSend_start st)"
    by (simp add: handleSend_def)
  have s: "settled (store ?r)"
    unfolding r using handleSend_start_flagged fail by (rule handleSend_stream_settled)
  have b: "butlast (messages (store ?r)) = messages (store st) @ [user_msg (trim (input st))]"
    unfolding r by (simp add: handleSend_stream_butlast handleSend_start_store butlast_append)
  from s show ne: "messages (store ?r) \<noteq> []"
    and "role (last (messages (store ?r))) = Assistant"
    and l: "isStreaming (last (messages (store ?r))) = Some False"
    and "content (last (messages (store ?r))) \<noteq> []"
    by (simp_all add: settled_def last_assistant_def)
  from b show "butlast (messages (store ?r)) = messages (store st) @ [user_msg (trim (input st))]" .
  show "\<not> isSending ?r"
    unfolding r by (rule handleSend_stream_flag)
  assume old: "\<forall>m \<in> set (messages (store st)). isStreaming m \<noteq> Some True"
  have "messages (store ?r) = butlast (messages (store ?r)) @ [last (messages (store ?r))]"
    using ne by simp
  then have "set (messages (store ?r)) =
      set (messages (store st)) \<union> {user_msg (trim (input st)), last (messages (store ?r))}"
    using b by (metis Un_insert_right append_Nil2 list.simps(15) set_append sup_bot.right_neutral insert_commute)
  with old l show "\<forall>m \<in> set (messages (store ?r)). isStreaming m \<noteq> Some True"
    by (auto simp add: user_msg_def)
next
  assume acc: "\<not> handleAudit_rejects a"
    and fail: "snd run = Threw \<or> (\<exists>ev \<in> set (fst run). ev_type ev = ascii ''error'')"
  from acc have r: "handleAudit run a = handleAudit_stream run (handleAudit_start a)"
    by (simp add: handleAudit_def)
  show "\<not> isAuditing (handleAudit run a)"
    unfolding r by (simp add: handleAudit_stream_def Let_def)
  show "result (handleAudit run a) \<noteq> []"
  proof (cases "snd run")
    case Closed
    with fail show ?thesis
      unfolding r by (simp add: handleAudit_stream_def Let_def audit_events_error)
  next
    case Threw
    then show ?thesis
      unfolding r by (simp add: handleAudit_stream_def Let_def err_nonempty)
  qed
qed

theorem failed_turn_settles_witness:
  "isStreaming (last (messages (store (handleSend ([error_event None], Closed) (chat_page loaded_store ''hi''))))) = Some False \<and>
   content (last (messages (store (handleSend ([error_event None], Closed) (chat_page loaded_store ''hi''))))) \<noteq> [] \<and>
   \<not> isAuditing (handleAudit ([error_event None], Closed) (audit_page text50)) \<and>
   result (handleAudit ([error_event None], Closed) (audit_page text50)) \<noteq> []"
proof -
  have a: "\<not> handleSend_rejects (chat_page loaded_store ''hi'')"
    by (simp add: handleSend_rejects_def chat_page_def trim_def is_ws_def ascii_def)
  have b: "\<not> handleAudit_rejects (audit_page text50)"
    using length_texts(2) by (auto simp add: handleAudit_rejects_def audit_page_def)
  have c: "snd ([error_event None], Closed) = Threw \<or>
           (\<exists>ev \<in> set (fst ([error_event None], Closed)). ev_type ev = ascii ''error'')"
    by (simp add: error_event_def)
  from failed_turn_settles [of "chat_page loaded_store ''hi''" "([error_event None], Closed)" "audit_page text50"]
    a b c show ?thesis
    by blast
qed

text \<open>
  C4 as stated fails: \<open>finishStreaming\<close> reaches the last message only. A turn whose
  stream yields a token and closes without a done event leaves its placeholder
  streaming; a later turn that throws finalizes its own placeholder and leaves the
  earlier one streaming.
\<close>

lemma stuck_page_eval:
  "stuck_page =
     \<lparr>store = \<lparr>messages = [user_msg (ascii ''hi''), placeholder\<lparr>content := ascii ''a''\<rparr>],
                isLoading = False, hasMore = False\<rparr>,
      input = ascii ''again'', isSending = False,
      effects = [Haptic light, SendChatMessage (ascii ''hi'')]\<rparr>"
  by (simp add: stuck_page_def handleSend_def handleSend_rejects_def handleSend_start_def
      handleSend_stream_def chat_events_def chat_event_token chat_page_def empty_store_def
      addMessage_def appendToLast_def placeholder_def trim_def is_ws_def ascii_def Let_def)

theorem failed_turn_stuck_cex:
  "\<not> handleSend_rejects stuck_page \<and>
   map isStreaming (messages (store stuck_page)) = [None, Some True] \<and>
   map isStreaming (messages (store (handleSend ([], Threw) stuck_page))) =
     [None, Some True, None, Some False]"
  by (simp add: stuck_page_eval handleSend_def handleSend_rejects_def handleSend_start_def
      handleSend_stream_def chat_events_def addMessage_def appendToLast_def finishStreaming_def
      placeholder_def user_msg_def trim_def is_ws_def ascii_def Let_def)

section \<open>The reader\<close>

lemmas json_eval =
  json_parse_def ascii_def is_delim_def json_ws_def punct_def emit_def delim_tokens_def
  after_delim_def bare_value_def int_lexeme_def nat_lexeme_def digit_def startsWith_def

lemma split_nl_nonempty: "split_nl s \<noteq> []"
  by (induction s) (auto split: list.splits)

lemma split_nl_append:
  "split_nl (x @ y) = butlast (split_nl x) @ split_nl (last (split_nl x) @ y)"
proof (induction x)
  case Nil
  then show ?case by simp
next
  case (Cons c cs)
  show ?case
  proof (cases "c = 0x0A")
    case True
    with Cons show ?thesis
      by (simp add: split_nl_nonempty)
  next
    case False
    obtain l ls where s: "split_nl cs = l # ls"
      using split_nl_nonempty [of cs] by (cases "split_nl cs") auto
    show ?thesis
    proof (cases "ls = []")
      case True
      with Cons s False show ?thesis
        by simp
    next
      case ne: False
      with Cons s False show ?thesis
        by simp
    qed
  qed
qed

lemma butlast_split_nl_append:
  "butlast (split_nl (x @ y)) = butlast (split_nl x) @ butlast (split_nl (last (split_nl x) @ y))"
  by (subst split_nl_append) (simp add: butlast_append split_nl_nonempty)

lemma frames_append: "frames parse (xs @ ys) = frames parse xs @ frames parse ys"
  by (induction xs) (simp_all split: option.splits)

lemma split_nl_no_newline: "0x0A \<notin> set b \<Longrightarrow> split_nl b = [b]"
  by (induction b) simp_all

lemma last_split_nl_no_newline: "0x0A \<notin> set (last (split_nl s))"
  by (induction s) (auto simp add: split_nl_nonempty split: list.splits)

lemma read_loop_lines:
  "0x0A \<notin> set buffer \<Longrightarrow>
   read_loop parse buffer chunks = frames parse (butlast (split_nl (buffer @ concat chunks)))"
proof (induction chunks arbitrary: buffer)
  case Nil
  then show ?case
    by (simp add: split_nl_no_newline)
next
  case (Cons v rest)
  have "read_loop parse (last (split_nl (buffer @ v))) rest =
        frames parse (butlast (split_nl (last (split_nl (buffer @ v)) @ concat rest)))"
    by (rule Cons.IH) (rule last_split_nl_no_newline)
  moreover have "butlast (split_nl (buffer @ v @ concat rest)) =
      butlast (split_nl (buffer @ v)) @
      butlast (split_nl (last (split_nl (buffer @ v)) @ concat rest))"
    using butlast_split_nl_append [of "buffer @ v" "concat rest"] by simp
  ultimately show ?case
    by (simp add: Let_def frames_append)
qed

lemma split_nl_line: "0x0A \<notin> set l \<Longrightarrow> split_nl (l @ 0x0A # r) = l # split_nl r"
  by (induction l) simp_all

lemma split_nl_unlines:
  "\<forall>l \<in> set ls. 0x0A \<notin> set l \<Longrightarrow> split_nl (unlines ls @ r) = ls @ split_nl r"
  by (induction ls) (simp_all add: unlines_def split_nl_line)

lemma frames_mem:
  "l \<in> set ls \<Longrightarrow> startsWith (ascii ''data: '') l \<Longrightarrow> parse (drop 6 l) = Some d \<Longrightarrow>
   d \<in> set (frames parse ls)"
  by (induction ls) (auto split: option.splits)

text \<open>
  C1, as the code has it. The reader never looks at what it yields: for any parser,
  the events of a body are the frames of all the complete lines of the whole text, in
  order, and the sequence ends where the reads end (closed or failed). The text after
  the last line feed is not a line and yields nothing.
\<close>

theorem apiStream_reads_to_the_end:
  "apiStream parse (Body chunks e) = (frames parse (butlast (split_nl (concat chunks))), e)"
  using read_loop_lines [of "[]" parse chunks] by simp

text \<open>
  C1 as stated fails: a frame that follows a done frame in the body is yielded after it.
\<close>

theorem events_after_done_cex:
  \<open>apiStream json_parse
     (Body [ascii ''data: {"type":"done","message_id":42}\<newline>data: {"type":"token","content":"x"}\<newline>'']
        Closed) =
   ([done_json 42, token_json ''x''], Closed)\<close>
  by (simp add: json_eval token_json_def done_json_def)

text \<open>
  C6. Let the text of a body, cut into chunks in any way, be the lines \<open>pre\<close>, a line
  that starts with \<open>data: \<close> and whose rest the parser rejects, the lines \<open>post\<close>,
  each followed by a line feed, and then an unfinished rest. The reader yields the
  frames of \<open>pre\<close> and then the frames of \<open>post\<close>: nothing for the rejected line, and
  the event of every later line that starts with \<open>data: \<close> and parses.
\<close>

theorem malformed_line_dropped:
  assumes "startsWith (ascii ''data: '') line" and "parse (drop 6 line) = None"
    and "\<forall>l \<in> set (pre @ [line] @ post). 0x0A \<notin> set l"
    and "concat chunks = unlines (pre @ [line] @ post) @ r" and "0x0A \<notin> set r"
  shows "fst (apiStream parse (Body chunks e)) = frames parse pre @ frames parse post \<and>
         (\<forall>l \<in> set post. \<forall>d. startsWith (ascii ''data: '') l \<and> parse (drop 6 l) = Some d \<longrightarrow>
            d \<in> set (fst (apiStream parse (Body chunks e))))"
proof -
  have "split_nl (concat chunks) = (pre @ [line] @ post) @ [r]"
    using assms(3-5) split_nl_unlines [of "pre @ [line] @ post" r]
    by (simp add: split_nl_no_newline)
  then have "butlast (split_nl (concat chunks)) = pre @ [line] @ post"
    by (simp add: butlast_append)
  moreover have "frames parse (line # post) = frames parse post"
    using assms(1,2) by simp
  then have "frames parse (pre @ [line] @ post) = frames parse pre @ frames parse post"
    by (simp add: frames_append del: frames.simps)
  ultimately have "fst (apiStream parse (Body chunks e)) = frames parse pre @ frames parse post"
    using read_loop_lines [of "[]" parse chunks] by simp
  then show ?thesis
    by (auto intro: frames_mem)
qed

theorem malformed_line_dropped_witness:
  \<open>fst (apiStream json_parse
     (Body [ascii ''data: {"type":"token","content":"a"}\<newline>data: {not'',
            ascii '' json\<newline>data: {"type":"token","content":"x"}\<newline>'']
        Closed)) =
   [token_json ''a'', token_json ''x'']\<close>
proof -
  let ?pre = \<open>[ascii ''data: {"type":"token","content":"a"}'']\<close>
  let ?line = \<open>ascii ''data: {not json''\<close>
  let ?post = \<open>[ascii ''data: {"type":"token","content":"x"}'']\<close>
  let ?chunks = \<open>[ascii ''data: {"type":"token","content":"a"}\<newline>data: {not'',
            ascii '' json\<newline>data: {"type":"token","content":"x"}\<newline>'']\<close>
  have 1: "startsWith (ascii ''data: '') ?line"
    by (simp add: startsWith_def ascii_def)
  have 2: "json_parse (drop 6 ?line) = None"
    by (simp add: json_eval)
  have 3: "\<forall>l \<in> set (?pre @ [?line] @ ?post). 0x0A \<notin> set l"
    by (simp add: ascii_def)
  have 4: "concat ?chunks = unlines (?pre @ [?line] @ ?post) @ []"
    by (simp add: unlines_def ascii_def)
  have 5: "0x0A \<notin> set ([] :: jsstring)"
    by simp
  have 6: "frames json_parse ?pre = [token_json ''a'']" "frames json_parse ?post = [token_json ''x'']"
    by (simp_all add: json_eval token_json_def)
  from malformed_line_dropped [of ?line json_parse ?pre ?post ?chunks "[]" Closed, OF 1 2 3 4 5] 6
  show ?thesis
    by simp
qed

end
